theory Spec2Isabelle
  imports Main "HOL-Library.Sublist"
begin

section \<open>JavaScript strings and arrays\<close>

text \<open>
  A JavaScript string is a sequence of UTF-16 code units. The model keeps the code units
  below 256 (Latin-1), which is what \<open>char\<close> holds; on these \<open>toLowerCase\<close> maps one code
  unit to one code unit, so offsets into a string and into its lower-cased copy agree.
  Strings with other code units are outside the model: there JavaScript's \<open>toLowerCase\<close>
  can lengthen a string (U+0130 becomes two code units), and nothing below speaks of them.
\<close>

datatype js_error = SyntaxError | TypeError | QueryParseError

definition lower_char :: "char \<Rightarrow> char" where
  "lower_char c =
     (let n = (of_char c :: nat)
      in if (65 \<le> n \<and> n \<le> 90) \<or> (192 \<le> n \<and> n \<le> 222 \<and> n \<noteq> 215)
         then char_of (n + 32) else c)"

definition toLowerCase :: "string \<Rightarrow> string" where
  "toLowerCase s = map lower_char s"

text \<open>White space as \<open>trim()\<close> and the class \<open>\s\<close> read it, for code units below 256.\<close>

definition is_space :: "char \<Rightarrow> bool" where
  "is_space c = ((of_char c :: nat) \<in> {9, 10, 11, 12, 13, 32, 160})"

definition trim :: "string \<Rightarrow> string" where
  "trim s = rev (dropWhile is_space (rev (dropWhile is_space s)))"

text \<open>
  \<open>s.split(/\s+/)\<close>: the pieces between maximal runs of white space, the empty pieces at
  both ends included. The second argument is the piece read so far.
\<close>

function split_ws :: "string \<Rightarrow> string \<Rightarrow> string list" where
  "split_ws [] tok = [tok]"
| "split_ws (c # cs) tok =
     (if is_space c then tok # split_ws (dropWhile is_space cs) []
      else split_ws cs (tok @ [c]))"
  by pat_completeness auto
termination
  by (relation "measure (\<lambda>(s, tok). length s)")
     (auto simp: le_imp_less_Suc length_dropWhile_le)

text \<open>\<open>s.indexOf(t)\<close>: the first offset at which \<open>t\<close> starts in \<open>s\<close>, or \<open>-1\<close>.\<close>

fun indexOf_from :: "string \<Rightarrow> string \<Rightarrow> nat \<Rightarrow> int" where
  "indexOf_from [] t i = (if t = [] then int i else - 1)"
| "indexOf_from (c # cs) t i =
     (if prefix t (c # cs) then int i else indexOf_from cs t (Suc i))"

definition indexOf :: "string \<Rightarrow> string \<Rightarrow> int" where
  "indexOf s t = indexOf_from s t 0"

text \<open>\<open>s.includes(t)\<close>.\<close>

fun js_includes :: "string \<Rightarrow> string \<Rightarrow> bool" where
  "js_includes [] t = (t = [])"
| "js_includes (c # cs) t = (prefix t (c # cs) \<or> js_includes cs t)"

text \<open>\<open>s.substring(a, b)\<close>: both arguments are clamped to the string, and swapped when \<open>a > b\<close>.\<close>

definition substring :: "string \<Rightarrow> int \<Rightarrow> int \<Rightarrow> string" where
  "substring s a b =
     (let n = int (length s);
          a' = max 0 (min a n);
          b' = max 0 (min b n);
          lo = min a' b';
          hi = max a' b'
      in take (nat (hi - lo)) (drop (nat lo) s))"

text \<open>\<open>xs[i]\<close> on an array: \<open>undefined\<close> (here \<open>None\<close>) outside the array.\<close>

definition js_get :: "'a list \<Rightarrow> int \<Rightarrow> 'a option" where
  "js_get xs i = (if 0 \<le> i \<and> i < int (length xs) then Some (xs ! nat i) else None)"

text \<open>\<open>xs.slice(0, n)\<close>.\<close>

definition slice0 :: "nat \<Rightarrow> 'a list \<Rightarrow> 'a list" where
  "slice0 n xs = take n xs"


section \<open>The search overlay\<close>

record document =
  doc_id :: string
  doc_title :: string
  doc_content :: string
  doc_url :: string

text \<open>
  The variables of \<open>initSearch\<close>. The Lunr index is the library's: \<open>lunrIndex.search\<close> is a
  function from the query to the references of the hits, in the library's relevance order,
  or an exception. \<open>lunrDefined\<close> is \<open>typeof lunr !== 'undefined'\<close>; \<open>location\<close> is the last
  value assigned to \<open>window.location.href\<close>.
\<close>

record search_state =
  searchActive :: bool
  searchQuery :: string
  searchResults :: "document list"
  selectedResultIndex :: int
  documents :: "document list"
  lunrIndex :: "(string \<Rightarrow> js_error + string list) option"
  lunrDefined :: bool
  location :: "string option"

text \<open>
  \<open>renderResults\<close> writes the DOM only, and every function assigns its variables before
  it renders. The functions of this section and of the controller's operations give the
  transitions on the variables; the rendering has its own section, and the \<open>keydown\<close>
  listener below runs it where the source does, since it can throw.
\<close>

definition fallbackSearch :: "string \<Rightarrow> search_state \<Rightarrow> search_state" where
  "fallbackSearch query s =
     (let lowerQuery = toLowerCase query
      in s\<lparr>searchResults :=
             slice0 10 (filter (\<lambda>doc. js_includes (toLowerCase (doc_title doc)) lowerQuery \<or>
                                       js_includes (toLowerCase (doc_content doc)) lowerQuery)
                               (documents s)),
           selectedResultIndex := - 1\<rparr>)"

text \<open>\<open>documents.find(d => d.id === ref)\<close>, and the chain \<open>map\<close>, \<open>filter(doc => doc)\<close>.\<close>

definition findDoc :: "document list \<Rightarrow> string \<Rightarrow> document option" where
  "findDoc docs r = List.find (\<lambda>d. doc_id d = r) docs"

definition convertResults :: "document list \<Rightarrow> string list \<Rightarrow> document list" where
  "convertResults docs refs = map the (filter (\<lambda>doc. doc \<noteq> None) (map (findDoc docs) refs))"

definition performSearch :: "string \<Rightarrow> search_state \<Rightarrow> search_state" where
  "performSearch query s =
     (if trim query = [] then s\<lparr>searchResults := []\<rparr>
      else case lunrIndex s of
        None \<Rightarrow> fallbackSearch query s
      | Some idx \<Rightarrow>
          if lunrDefined s then
            (case idx (query @ ''*'') of
               Inr refs \<Rightarrow>
                 s\<lparr>searchResults := slice0 10 (convertResults (documents s) refs),
                   selectedResultIndex := - 1\<rparr>
             | Inl e \<Rightarrow> s\<lparr>searchResults := [], selectedResultIndex := - 1\<rparr>)
          else fallbackSearch query s)"


subsection \<open>The snippet extractor\<close>

text \<open>\<open>lowerQuery.split(/\s+/).filter(t => t.length > 0)\<close>.\<close>

definition queryTerms :: "string \<Rightarrow> string list" where
  "queryTerms lowerQuery = filter (\<lambda>t. length t > 0) (split_ws lowerQuery [])"

text \<open>
  The loop over the terms: \<open>matchIndex\<close> is the offset of the first term, in the order
  of the query, that occurs at all; the loop breaks there.
\<close>

fun findMatchIndex :: "string \<Rightarrow> string list \<Rightarrow> int" where
  "findMatchIndex lowerContent [] = - 1"
| "findMatchIndex lowerContent (t # ts) =
     (let matchIndex = indexOf lowerContent t
      in if matchIndex = - 1 then findMatchIndex lowerContent ts else matchIndex)"

text \<open>
  The highlighting loop. \<open>RegExp\<close> and \<open>String.prototype.replace\<close> are the host's:
  \<open>mkRegExp\<close> is the constructor applied to the pattern (with the flags \<open>gi\<close>), which
  returns a regular expression or throws; \<open>replaceMark r s\<close> is
  \<open>s.replace(r, '<mark>$1</mark>')\<close>. The pattern is the term between parentheses, as it
  stands.
\<close>

fun highlightTerms ::
  "(string \<Rightarrow> js_error + 'r) \<Rightarrow> ('r \<Rightarrow> string \<Rightarrow> string) \<Rightarrow> string list \<Rightarrow> string
   \<Rightarrow> js_error + string" where
  "highlightTerms mkRegExp replaceMark [] snippet = Inr snippet"
| "highlightTerms mkRegExp replaceMark (t # ts) snippet =
     (if length t > 2 then
        (case mkRegExp (''('' @ t @ '')'') of
           Inl e \<Rightarrow> Inl e
         | Inr regex \<Rightarrow> highlightTerms mkRegExp replaceMark ts (replaceMark regex snippet))
      else highlightTerms mkRegExp replaceMark ts snippet)"

definition getSnippet ::
  "(string \<Rightarrow> js_error + 'r) \<Rightarrow> ('r \<Rightarrow> string \<Rightarrow> string) \<Rightarrow> string \<Rightarrow> string
   \<Rightarrow> js_error + string" where
  "getSnippet mkRegExp replaceMark content query =
     (if content = [] \<or> query = [] then Inr []
      else
        let lowerContent = toLowerCase content;
            lowerQuery = toLowerCase query;
            terms = queryTerms lowerQuery;
            matchIndex = findMatchIndex lowerContent terms
        in if matchIndex = - 1
           then Inr (substring content 0 150 @ (if length content > 150 then ''...'' else []))
           else
             let contextSize = 75;
                 start = max 0 (matchIndex - contextSize);
                 end = min (int (length content)) (matchIndex + contextSize);
                 snippet = substring content start end;
                 snippet = (if start > 0 then ''...'' @ snippet else snippet);
                 snippet = (if end < int (length content) then snippet @ ''...'' else snippet)
             in highlightTerms mkRegExp replaceMark terms snippet)"

text \<open>
  The offset that the specification and the comment over the loop name, for comparison:
  the least of the first offsets of the terms that occur, or \<open>-1\<close> when none occurs.
\<close>

definition spec_earliestOffset :: "string \<Rightarrow> string list \<Rightarrow> int" where
  "spec_earliestOffset lowerContent terms =
     (let offsets = filter (\<lambda>p. p \<noteq> - 1) (map (indexOf lowerContent) terms)
      in if offsets = [] then - 1 else Min (set offsets))"

subsection \<open>Rendering\<close>

record result_item =
  item_href :: string
  item_title :: string
  item_snippet :: string
  item_selected :: bool

datatype results_view = Blank | NoResultsFound | ResultsList "result_item list"

text \<open>The \<open>forEach\<close> of \<open>renderResults\<close>: an exception of \<open>getSnippet\<close> leaves it at once.\<close>

fun renderItems ::
  "(string \<Rightarrow> js_error + 'r) \<Rightarrow> ('r \<Rightarrow> string \<Rightarrow> string) \<Rightarrow> string \<Rightarrow> int \<Rightarrow> int
   \<Rightarrow> document list \<Rightarrow> js_error + result_item list" where
  "renderItems mkRegExp replaceMark query selected index [] = Inr []"
| "renderItems mkRegExp replaceMark query selected index (result # rest) =
     (case getSnippet mkRegExp replaceMark (doc_content result) query of
        Inl e \<Rightarrow> Inl e
      | Inr snippet \<Rightarrow>
          (case renderItems mkRegExp replaceMark query selected (index + 1) rest of
             Inl e \<Rightarrow> Inl e
           | Inr items \<Rightarrow>
               Inr (\<lparr>item_href = doc_url result, item_title = doc_title result,
                      item_snippet = snippet, item_selected = (index = selected)\<rparr> # items)))"

definition renderResults ::
  "(string \<Rightarrow> js_error + 'r) \<Rightarrow> ('r \<Rightarrow> string \<Rightarrow> string) \<Rightarrow> search_state
   \<Rightarrow> js_error + results_view" where
  "renderResults mkRegExp replaceMark s =
     (if searchResults s = []
      then (if trim (searchQuery s) = [] then Inr Blank else Inr NoResultsFound)
      else case renderItems mkRegExp replaceMark (searchQuery s) (selectedResultIndex s) 0
                  (searchResults s) of
             Inl e \<Rightarrow> Inl e
           | Inr items \<Rightarrow> Inr (ResultsList items))"

subsection \<open>The overlay controller\<close>

definition initSearch :: search_state where
  "initSearch =
     \<lparr>searchActive = False, searchQuery = [], searchResults = [], selectedResultIndex = - 1,
      documents = [], lunrIndex = None, lunrDefined = False, location = None\<rparr>"

definition openSearch :: "search_state \<Rightarrow> search_state" where
  "openSearch s =
     s\<lparr>searchActive := True, searchQuery := [], searchResults := [],
       selectedResultIndex := - 1\<rparr>"

definition closeSearch :: "search_state \<Rightarrow> search_state" where
  "closeSearch s =
     s\<lparr>searchActive := False, searchQuery := [], searchResults := [],
       selectedResultIndex := - 1\<rparr>"

text \<open>The \<open>input\<close> listener of the query field.\<close>

definition onInput :: "string \<Rightarrow> search_state \<Rightarrow> search_state" where
  "onInput text s = performSearch text (s\<lparr>searchQuery := text\<rparr>)"

definition arrowDown :: "search_state \<Rightarrow> search_state" where
  "arrowDown s =
     (let nextIndex = min (selectedResultIndex s + 1) (int (length (searchResults s)) - 1)
      in if nextIndex \<ge> 0 then s\<lparr>selectedResultIndex := nextIndex\<rparr> else s)"

definition arrowUp :: "search_state \<Rightarrow> search_state" where
  "arrowUp s =
     (let prevIndex = max (selectedResultIndex s - 1) (- 1)
      in s\<lparr>selectedResultIndex := prevIndex\<rparr>)"

record key_event =
  key :: string
  targetTag :: string
  ctrlKey :: bool
  metaKey :: bool
  altKey :: bool

text \<open>The condition under which the listener of \<open>initSearch\<close> takes \<open>H\<close> for "home".\<close>

definition homeGuard :: "key_event \<Rightarrow> search_state \<Rightarrow> bool" where
  "homeGuard e s =
     ((key e = ''h'' \<or> key e = ''H'') \<and> \<not> searchActive s \<and> targetTag e \<noteq> ''INPUT'' \<and>
      targetTag e \<noteq> ''TEXTAREA'' \<and> \<not> ctrlKey e \<and> \<not> metaKey e \<and> \<not> altKey e)"

definition homeShortcut :: "key_event \<Rightarrow> search_state \<Rightarrow> search_state" where
  "homeShortcut e s = (if homeGuard e s then s\<lparr>location := Some ''/''\<rparr> else s)"

text \<open>
  A call of \<open>renderResults()\<close> after the variables have been assigned: the state as it is,
  or the exception that leaves the listener (\<open>Inl\<close>; the variables keep what was assigned,
  the model does not follow the page after an uncaught exception).
\<close>

definition thenRender ::
  "(string \<Rightarrow> js_error + 'r) \<Rightarrow> ('r \<Rightarrow> string \<Rightarrow> string) \<Rightarrow> search_state
   \<Rightarrow> js_error + search_state" where
  "thenRender mkRegExp replaceMark s =
     (case renderResults mkRegExp replaceMark s of Inl e \<Rightarrow> Inl e | Inr view \<Rightarrow> Inr s)"

text \<open>The \<open>/\<close> shortcut: \<open>openSearch()\<close>, which renders.\<close>

definition slashShortcut ::
  "(string \<Rightarrow> js_error + 'r) \<Rightarrow> ('r \<Rightarrow> string \<Rightarrow> string) \<Rightarrow> key_event \<Rightarrow> search_state
   \<Rightarrow> js_error + search_state" where
  "slashShortcut mkRegExp replaceMark e s =
     (if key e = ''/'' \<and> \<not> searchActive s \<and> targetTag e \<noteq> ''INPUT'' \<and>
         targetTag e \<noteq> ''TEXTAREA''
      then thenRender mkRegExp replaceMark (openSearch s) else Inr s)"

text \<open>
  The \<open>Enter\<close> branch: \<open>searchResults[selectedResultIndex]\<close> is read twice, once for its
  truth value and once for its \<open>url\<close>; reading \<open>url\<close> of \<open>undefined\<close> would throw.
\<close>

definition onEnter :: "search_state \<Rightarrow> js_error + search_state" where
  "onEnter s =
     (if selectedResultIndex s \<ge> 0 \<and> js_get (searchResults s) (selectedResultIndex s) \<noteq> None
      then (case js_get (searchResults s) (selectedResultIndex s) of
              None \<Rightarrow> Inl TypeError
            | Some doc \<Rightarrow> Inr (s\<lparr>location := Some (doc_url doc)\<rparr>))
      else Inr s)"

text \<open>
  The \<open>keydown\<close> listener that \<open>initSearch\<close> installs on the document. The arrow branches
  call \<open>renderResults()\<close> after they have moved the selection (ArrowDown only when it has
  an index to move to); \<open>closeSearch\<close> and the \<open>Enter\<close> branch do not render.
\<close>

definition search_keydown ::
  "(string \<Rightarrow> js_error + 'r) \<Rightarrow> ('r \<Rightarrow> string \<Rightarrow> string) \<Rightarrow> key_event \<Rightarrow> search_state
   \<Rightarrow> js_error + search_state" where
  "search_keydown mkRegExp replaceMark e s0 =
     (let s1 = homeShortcut e s0
      in case slashShortcut mkRegExp replaceMark e s1 of
           Inl err \<Rightarrow> Inl err
         | Inr s2 \<Rightarrow>
             if \<not> searchActive s2 then Inr s2
             else if key e = ''Escape'' then Inr (closeSearch s2)
             else if key e = ''ArrowDown'' then
               (let nextIndex = min (selectedResultIndex s2 + 1)
                                    (int (length (searchResults s2)) - 1)
                in if nextIndex \<ge> 0 then thenRender mkRegExp replaceMark (arrowDown s2)
                   else Inr s2)
             else if key e = ''ArrowUp'' then thenRender mkRegExp replaceMark (arrowUp s2)
             else if key e = ''Enter'' then onEnter s2
             else Inr s2)"

text \<open>The operations of the controller, and a run of them.\<close>

datatype overlay_op = Open | Close | QueryChange string | ArrowDown | ArrowUp

fun overlay_step :: "overlay_op \<Rightarrow> search_state \<Rightarrow> search_state" where
  "overlay_step Open s = openSearch s"
| "overlay_step Close s = closeSearch s"
| "overlay_step (QueryChange text) s = onInput text s"
| "overlay_step ArrowDown s = arrowDown s"
| "overlay_step ArrowUp s = arrowUp s"

definition overlay_run :: "overlay_op list \<Rightarrow> search_state \<Rightarrow> search_state" where
  "overlay_run ops s = foldl (\<lambda>st op. overlay_step op st) s ops"


section \<open>The top navigation's shortcuts\<close>

text \<open>The \<open>keydown\<close> listener of \<open>static/script.js\<close>, as the effect it has on the page.\<close>

datatype page_effect = Navigate string | HistoryBack | ScrollToTop

record nav_link =
  link_text :: string
  link_href :: string

definition script_keydown :: "key_event \<Rightarrow> int \<Rightarrow> nav_link list \<Rightarrow> page_effect option" where
  "script_keydown e scrollPosition navLinks =
     (if targetTag e = ''INPUT'' \<or> targetTag e = ''TEXTAREA'' then None
      else if ctrlKey e \<or> metaKey e \<or> altKey e then None
      else if key e = ''h'' \<or> key e = ''H'' then Some (Navigate ''/'')
      else if key e = ''u'' \<or> key e = ''U''
        then (if scrollPosition \<le> 10 then Some HistoryBack else Some ScrollToTop)
      else if navLinks = [] then None
      else
        let pressed = toLowerCase (key e)
        in case List.find (\<lambda>link. prefix pressed (toLowerCase (trim (link_text link))))
                  navLinks of
             None \<Rightarrow> None
           | Some match \<Rightarrow> Some (Navigate (link_href match)))"

text \<open>
  Both listeners are on the document, so one key press runs both: the page goes home when
  either of them assigns \<open>'/'\<close> to \<open>window.location.href\<close>.
\<close>

definition goes_home ::
  "key_event \<Rightarrow> search_state \<Rightarrow> int \<Rightarrow> nav_link list \<Rightarrow> bool" where
  "goes_home e s scrollPosition navLinks =
     (homeGuard e s \<or> script_keydown e scrollPosition navLinks = Some (Navigate ''/''))"


section \<open>The list navigator\<close>

text \<open>
  The variables of the page-list script. \<open>links\<close>, the list of the \<open>href\<close>s of the numbered
  links, is fixed when the script starts and is a parameter of every function.
  \<open>timerPending\<close> says that the timer held in \<open>numberTimeout\<close> is still to fire;
  \<open>highlighted\<close> is the set of the links that carry the class \<open>highlighted\<close>;
  \<open>scrolledTo\<close> is the link the window was last scrolled to, \<open>nav_location\<close> the last
  value assigned to \<open>window.location.href\<close>.
\<close>

record nav_state =
  currentIndex :: int
  numberBuffer :: string
  timerPending :: bool
  keyboardNavActive :: bool
  highlighted :: "nat set"
  scrolledTo :: "int option"
  nav_location :: "string option"

definition nav_init :: nav_state where
  "nav_init =
     \<lparr>currentIndex = - 1, numberBuffer = [], timerPending = False, keyboardNavActive = False,
      highlighted = {}, scrolledTo = None, nav_location = None\<rparr>"

definition setKeyboardNavMode :: "bool \<Rightarrow> nav_state \<Rightarrow> nav_state" where
  "setKeyboardNavMode active s = s\<lparr>keyboardNavActive := active\<rparr>"

definition clearHighlight :: "nav_state \<Rightarrow> nav_state" where
  "clearHighlight s = s\<lparr>highlighted := {}\<rparr>"

definition highlightLink :: "string list \<Rightarrow> int \<Rightarrow> nav_state \<Rightarrow> nav_state" where
  "highlightLink links index s =
     (let s1 = setKeyboardNavMode True (clearHighlight s)
      in if index \<ge> 0 \<and> index < int (length links)
         then s1\<lparr>currentIndex := index,
                 highlighted := insert (nat index) (highlighted s1),
                 scrolledTo := Some index\<rparr>
         else s1)"

text \<open>\<open>links[currentIndex].href\<close> would throw on \<open>undefined\<close>.\<close>

definition navigateToLink :: "string list \<Rightarrow> nav_state \<Rightarrow> js_error + nav_state" where
  "navigateToLink links s =
     (if currentIndex s \<ge> 0 \<and> currentIndex s < int (length links)
      then (case js_get links (currentIndex s) of
              None \<Rightarrow> Inl TypeError
            | Some href \<Rightarrow> Inr (s\<lparr>nav_location := Some href\<rparr>))
      else Inr s)"

text \<open>
  \<open>parseInt(s, 10)\<close>: leading white space, a sign, then the longest run of decimal digits;
  \<open>NaN\<close> (here \<open>None\<close>) when there is no digit. The value is exact here, where JavaScript
  rounds to a double beyond \<open>2^53\<close>; the comparison with \<open>links.length\<close> reads the same.
\<close>

definition is_digit :: "char \<Rightarrow> bool" where
  "is_digit c = (48 \<le> (of_char c :: nat) \<and> (of_char c :: nat) \<le> 57)"

definition digit_val :: "char \<Rightarrow> nat" where
  "digit_val c = of_char c - 48"

definition decimal :: "string \<Rightarrow> nat" where
  "decimal ds = foldl (\<lambda>a c. 10 * a + digit_val c) 0 ds"

definition parseInt10 :: "string \<Rightarrow> int option" where
  "parseInt10 s =
     (let t = dropWhile is_space s;
          neg = (t \<noteq> [] \<and> hd t = CHR ''-'');
          u = (if t \<noteq> [] \<and> (hd t = CHR ''-'' \<or> hd t = CHR ''+'') then tl t else t);
          ds = takeWhile is_digit u
      in if ds = [] then None
         else Some (if neg then - int (decimal ds) else int (decimal ds)))"

definition handleNumberKey :: "string \<Rightarrow> nav_state \<Rightarrow> nav_state" where
  "handleNumberKey num s = s\<lparr>numberBuffer := numberBuffer s @ num, timerPending := True\<rparr>"

text \<open>The callback of the timer, 400 ms after the last digit.\<close>

definition settle :: "string list \<Rightarrow> nav_state \<Rightarrow> nav_state" where
  "settle links s =
     (let s1 = (case parseInt10 (numberBuffer s) of
                  None \<Rightarrow> s
                | Some n \<Rightarrow>
                    let linkIndex = n - 1
                    in if linkIndex \<ge> 0 \<and> linkIndex < int (length links)
                       then highlightLink links linkIndex s else s)
      in s1\<lparr>numberBuffer := [], timerPending := False\<rparr>)"

text \<open>\<open>a <= b\<close> on strings: the order of the code units, position by position.\<close>

fun js_str_le :: "string \<Rightarrow> string \<Rightarrow> bool" where
  "js_str_le [] t = True"
| "js_str_le (c # cs) [] = False"
| "js_str_le (c # cs) (d # ds) =
     ((of_char c :: nat) < of_char d \<or> (c = d \<and> js_str_le cs ds))"

definition nav_keydown :: "string list \<Rightarrow> key_event \<Rightarrow> nav_state \<Rightarrow> js_error + nav_state" where
  "nav_keydown links e s =
     (if (targetTag e = ''INPUT'' \<or> targetTag e = ''TEXTAREA'') \<and> key e \<noteq> ''/'' then Inr s
      else if ctrlKey e \<or> metaKey e \<or> altKey e then Inr s
      else if key e = ''ArrowDown'' then
        (let nextIndex = currentIndex s + 1;
             s1 = (if nextIndex < int (length links) then highlightLink links nextIndex s else s)
         in Inr (s1\<lparr>numberBuffer := [], timerPending := False\<rparr>))
      else if key e = ''ArrowUp'' then
        (let prevIndex = currentIndex s - 1;
             s1 = (if prevIndex \<ge> 0 then highlightLink links prevIndex s else s)
         in Inr (s1\<lparr>numberBuffer := [], timerPending := False\<rparr>))
      else if key e = ''Enter'' \<and> currentIndex s \<ge> 0 then navigateToLink links s
      else if js_str_le ''0'' (key e) \<and> js_str_le (key e) ''9''
        then Inr (handleNumberKey (key e) s)
      else Inr s)"

definition onMouseMove :: "nav_state \<Rightarrow> nav_state" where
  "onMouseMove s =
     (if keyboardNavActive s
      then (clearHighlight (setKeyboardNavMode False s))\<lparr>currentIndex := - 1\<rparr>
      else s)"

text \<open>
  What can happen to the navigator: a key press, the timer firing (only a pending timer
  fires), the mouse moving over the list.
\<close>

datatype nav_event = KeyDown key_event | TimerFires | MouseMove

fun nav_step :: "string list \<Rightarrow> nav_event \<Rightarrow> nav_state \<Rightarrow> js_error + nav_state" where
  "nav_step links (KeyDown e) s = nav_keydown links e s"
| "nav_step links TimerFires s = Inr (if timerPending s then settle links s else s)"
| "nav_step links MouseMove s = Inr (onMouseMove s)"

fun nav_run :: "string list \<Rightarrow> nav_event list \<Rightarrow> nav_state \<Rightarrow> js_error + nav_state" where
  "nav_run links [] s = Inr s"
| "nav_run links (ev # evs) s =
     (case nav_step links ev s of Inl err \<Rightarrow> Inl err | Inr s' \<Rightarrow> nav_run links evs s')"

text \<open>A key press outside any text field, with no modifier held.\<close>

definition plain_key :: "string \<Rightarrow> key_event" where
  "plain_key k = \<lparr>key = k, targetTag = ''BODY'', ctrlKey = False, metaKey = False, altKey = False\<rparr>"


section \<open>Concrete inputs\<close>

text \<open>The two documents of the specification's scenario, loaded, with no index built.\<close>

definition scenario :: search_state where
  "scenario = initSearch\<lparr>documents :=
     [\<lparr>doc_id = ''a'', doc_title = ''Intro'', doc_content = ''Getting started guide'',
       doc_url = ''/a''\<rparr>,
      \<lparr>doc_id = ''b'', doc_title = ''Cache Design'', doc_content = ''A cache stores results'',
       doc_url = ''/b''\<rparr>]\<rparr>"

text \<open>Eleven documents with the identifiers \<open>a\<close> to \<open>k\<close>, each with "Cache" in its title.\<close>

definition corpus11 :: "document list" where
  "corpus11 = map (\<lambda>i. \<lparr>doc_id = [char_of (97 + i)], doc_title = ''Cache notes'',
                          doc_content = [], doc_url = ''/p''\<rparr>) [0 ..< 11]"

text \<open>
  Two documents, and a state whose index answers the query \<open>cache*\<close> with the given
  references (a title hit ranks before a content hit) and any other query with none.
\<close>

definition docA :: document where
  "docA = \<lparr>doc_id = ''a'', doc_title = ''Notes'', doc_content = ''Cache settings'', doc_url = ''/a''\<rparr>"

definition docB :: document where
  "docB = \<lparr>doc_id = ''b'', doc_title = ''Cache'', doc_content = ''Design'', doc_url = ''/b''\<rparr>"

definition indexed :: "string list \<Rightarrow> search_state" where
  "indexed refs = initSearch\<lparr>documents := [docA, docB],
      lunrIndex := Some (\<lambda>q. if q = ''cache*'' then Inr refs else Inr []),
      lunrDefined := True\<rparr>"

text \<open>One document whose content holds "C++", loaded, with no index built.\<close>

definition cpp_state :: search_state where
  "cpp_state = initSearch\<lparr>documents :=
     [\<lparr>doc_id = ''c'', doc_title = ''Languages'', doc_content = ''I love C++'', doc_url = ''/c''\<rparr>]\<rparr>"

text \<open>The invariant of the list navigator: \<open>currentIndex\<close> is \<open>-1\<close> or an index of a link.\<close>

definition in_range :: "string list \<Rightarrow> nav_state \<Rightarrow> bool" where
  "in_range links s = (- 1 \<le> currentIndex s \<and> currentIndex s \<le> int (length links) - 1)"

text \<open>
  Two states of the overlay over the scenario's corpus: the one result selected, and
  the query cleared after that.
\<close>

definition selected_state :: search_state where
  "selected_state = overlay_run [Open, QueryChange ''cache'', ArrowDown] scenario"

definition stale_state :: search_state where
  "stale_state = overlay_run [Open, QueryChange ''cache'', ArrowDown, QueryChange []] scenario"

text \<open>ArrowDown, pressed outside any text field.\<close>

definition pressDown :: nav_event where
  "pressDown = KeyDown (plain_key ''ArrowDown'')"

text \<open>A run of digit keys, each pressed outside any text field with no modifier held.\<close>

definition digitKeys :: "string \<Rightarrow> nav_event list" where
  "digitKeys ds = map (\<lambda>c. KeyDown (plain_key [c])) ds"

text \<open>A content of 106 characters: "foo" at offset 0 and "bar" at offset 103.\<close>

definition long_content :: string where
  "long_content = ''foo'' @ replicate 100 (CHR ''x'') @ ''bar''"


section \<open>Properties\<close>

subsection \<open>The cap on the results\<close>

lemma length_fallbackSearch: "length (searchResults (fallbackSearch query s)) \<le> 10"
  by (simp add: fallbackSearch_def slice0_def Let_def)

text \<open>
  C4. For every query text and every state of the overlay (every corpus, with or without
  an index, whatever the index answers), the results that \<open>performSearch\<close> leaves have
  length at most 10, on the indexed path and on the fallback path alike.
\<close>

theorem performSearch_at_most_ten:
  "length (searchResults (performSearch query s)) \<le> 10
   \<and> length (searchResults (fallbackSearch query s)) \<le> 10"
  by (simp add: performSearch_def length_fallbackSearch slice0_def
           split: option.split sum.split)


subsection \<open>Strings\<close>

lemma js_includes_sublist: "js_includes s t = sublist t s"
  by (induction s) (auto simp: sublist_Cons_right)

lemma is_space_lower_char: "is_space (lower_char c) = is_space c"
proof -
  let ?n = "of_char c :: nat"
  show ?thesis
  proof (cases "(65 \<le> ?n \<and> ?n \<le> 90) \<or> (192 \<le> ?n \<and> ?n \<le> 222 \<and> ?n \<noteq> 215)")
    case True
    then have "(of_char (char_of (?n + 32)) :: nat) = ?n + 32"
      by auto
    with True show ?thesis
      by (auto simp: lower_char_def is_space_def Let_def)
  next
    case False
    then show ?thesis by (auto simp: lower_char_def Let_def)
  qed
qed

lemma trim_empty_iff: "trim s = [] \<longleftrightarrow> (\<forall>c \<in> set s. is_space c)"
proof
  assume "trim s = []"
  then have a: "\<forall>c \<in> set (dropWhile is_space s). is_space c"
    by (simp add: trim_def)
  have "dropWhile is_space s = []"
  proof (rule ccontr)
    assume n: "dropWhile is_space s \<noteq> []"
    then have "\<not> is_space (hd (dropWhile is_space s))" by (rule hd_dropWhile)
    moreover have "hd (dropWhile is_space s) \<in> set (dropWhile is_space s)" using n by simp
    ultimately show False using a by blast
  qed
  then show "\<forall>c \<in> set s. is_space c" by simp
next
  assume "\<forall>c \<in> set s. is_space c"
  then have "dropWhile is_space s = []" by simp
  then show "trim s = []" by (simp only: trim_def rev.simps dropWhile.simps)
qed

lemma trim_toLowerCase_empty: "trim (toLowerCase s) = [] \<longleftrightarrow> trim s = []"
  by (simp add: trim_empty_iff toLowerCase_def is_space_lower_char)

lemma trim_cache: "trim ''cache'' \<noteq> []"
  by code_simp

lemma blank_case_variants:
  assumes "toLowerCase q' = toLowerCase q"
  shows "trim q' = [] \<longleftrightarrow> trim q = []"
  using assms trim_toLowerCase_empty by metis

lemma fallbackSearch_results:
  "searchResults (fallbackSearch q s) =
     take 10 (filter (\<lambda>d. sublist (toLowerCase q) (toLowerCase (doc_title d)) \<or>
                          sublist (toLowerCase q) (toLowerCase (doc_content d))) (documents s))"
  by (simp add: fallbackSearch_def slice0_def Let_def js_includes_sublist)

lemma subseq_take_filter: "subseq (take n (filter P xs)) xs"
proof -
  have "subseq (take n (filter P xs)) (filter P xs)"
    by (metis append_take_drop_id list_emb_append_mono subseq_order.order_refl
        list_emb_Nil self_append_conv)
  also have "subseq (filter P xs) xs" by simp
  finally show ?thesis .
qed

lemma performSearch_fallback:
  assumes "lunrIndex s = None \<or> \<not> lunrDefined s" and "trim q \<noteq> []"
  shows "performSearch q s = fallbackSearch q s"
  using assms by (auto simp: performSearch_def split: option.split)


subsection \<open>Fallback search\<close>

text \<open>
  C5, amended. When the index is unavailable and the query is not blank, the results are
  the first ten documents, in corpus order, whose lower-cased title or content contains
  the lower-cased query as a substring; they form a subsequence of the corpus; and two
  queries that differ in case only give the same results. (With more than ten matching
  documents the later ones are not returned.)
\<close>

theorem fallbackSearch_first_ten_matches:
  assumes "lunrIndex s = None \<or> \<not> lunrDefined s" and "trim q \<noteq> []"
  shows "searchResults (performSearch q s) =
           take 10 (filter (\<lambda>d. sublist (toLowerCase q) (toLowerCase (doc_title d)) \<or>
                                sublist (toLowerCase q) (toLowerCase (doc_content d)))
                           (documents s))
         \<and> subseq (searchResults (performSearch q s)) (documents s)
         \<and> (\<forall>q'. toLowerCase q' = toLowerCase q \<longrightarrow>
                searchResults (performSearch q' s) = searchResults (performSearch q s))"
proof -
  have eq: "performSearch q s = fallbackSearch q s"
    using assms by (rule performSearch_fallback)
  have 1: "searchResults (performSearch q s) =
           take 10 (filter (\<lambda>d. sublist (toLowerCase q) (toLowerCase (doc_title d)) \<or>
                                sublist (toLowerCase q) (toLowerCase (doc_content d)))
                           (documents s))"
    by (simp only: eq fallbackSearch_results)
  have 2: "subseq (searchResults (performSearch q s)) (documents s)"
    unfolding 1 by (rule subseq_take_filter)
  have 3: "searchResults (performSearch q' s) = searchResults (performSearch q s)"
    if v: "toLowerCase q' = toLowerCase q" for q'
  proof -
    have "trim q' \<noteq> []" using v assms(2) blank_case_variants by blast
    then have "performSearch q' s = fallbackSearch q' s"
      using assms(1) by (simp add: performSearch_fallback)
    then show ?thesis by (simp add: eq fallbackSearch_results v)
  qed
  from 1 2 3 show ?thesis by blast
qed


lemma scenario_cache:
  "searchResults (performSearch ''cache'' scenario) =
     [\<lparr>doc_id = ''b'', doc_title = ''Cache Design'', doc_content = ''A cache stores results'',
       doc_url = ''/b''\<rparr>]"
  by code_simp

theorem fallbackSearch_first_ten_matches_witness:
  "searchResults (performSearch ''CACHE'' scenario) =
     [\<lparr>doc_id = ''b'', doc_title = ''Cache Design'', doc_content = ''A cache stores results'',
       doc_url = ''/b''\<rparr>]
   \<and> searchResults (performSearch ''cache'' scenario) = searchResults (performSearch ''CACHE'' scenario)
   \<and> subseq (searchResults (performSearch ''cache'' scenario)) (documents scenario)"
proof -
  have a: "lunrIndex scenario = None \<or> \<not> lunrDefined scenario"
    by (simp add: scenario_def initSearch_def)
  have b: "toLowerCase ''CACHE'' = toLowerCase ''cache''"
    by code_simp
  note t = fallbackSearch_first_ten_matches [OF a trim_cache]
  have c: "searchResults (performSearch ''CACHE'' scenario) =
           searchResults (performSearch ''cache'' scenario)"
    using t b by blast
  have d: "subseq (searchResults (performSearch ''cache'' scenario)) (documents scenario)"
    using t by blast
  show ?thesis using c d scenario_cache by simp
qed

theorem fallbackSearch_eleventh_match_counterexample:
  "length corpus11 = 11
   \<and> distinct (map doc_id corpus11)
   \<and> sublist (toLowerCase ''CACHE'') (toLowerCase (doc_title (corpus11 ! 10)))
   \<and> corpus11 ! 10 \<notin> set (searchResults (fallbackSearch ''CACHE'' (initSearch\<lparr>documents := corpus11\<rparr>)))"
  by code_simp


subsection \<open>The indexed path\<close>

lemma findDoc_Some: "findDoc docs r = Some d \<Longrightarrow> d \<in> set docs \<and> doc_id d = r"
  by (auto simp: findDoc_def find_Some_iff)

lemma findDoc_None: "findDoc docs r = None \<longleftrightarrow> r \<notin> doc_id ` set docs"
  by (auto simp: findDoc_def find_None_iff)

lemma convertResults_map_filter:
  "convertResults docs refs = List.map_filter (findDoc docs) refs"
  by (simp add: convertResults_def map_filter_def filter_map comp_def)

lemma convertResults_Cons:
  "convertResults docs (r # refs) =
     (case findDoc docs r of None \<Rightarrow> convertResults docs refs
      | Some d \<Rightarrow> d # convertResults docs refs)"
  by (simp add: convertResults_def split: option.split)

lemma convertResults_append:
  "convertResults docs (rs1 @ rs2) = convertResults docs rs1 @ convertResults docs rs2"
  by (simp add: convertResults_def)

lemma convertResults_Nil: "convertResults docs [] = []"
  by (simp add: convertResults_def)

lemma convertResults_sound:
  "d \<in> set (convertResults docs refs) \<Longrightarrow> d \<in> set docs \<and> doc_id d \<in> set refs"
proof (induction refs)
  case Nil
  then show ?case by (simp add: convertResults_Nil)
next
  case (Cons r refs)
  show ?case
  proof (cases "findDoc docs r")
    case None
    with Cons show ?thesis by (simp add: convertResults_Cons)
  next
    case (Some x)
    with Cons show ?thesis
      using findDoc_Some [OF Some] by (auto simp: convertResults_Cons)
  qed
qed

lemma fallbackSearch_subset: "set (searchResults (fallbackSearch q s)) \<subseteq> set (documents s)"
  by (auto simp: fallbackSearch_def slice0_def Let_def dest: in_set_takeD)

lemma performSearch_subset:
  "set (searchResults (performSearch query s)) \<subseteq> set (documents s)"
proof -
  have "set (slice0 10 (convertResults (documents s) refs)) \<subseteq> set (documents s)" for refs
    by (auto simp: slice0_def dest: in_set_takeD convertResults_sound)
  then show ?thesis
    using fallbackSearch_subset [of query s]
    by (simp add: performSearch_def split: option.split sum.split)
qed

text \<open>
  C10, amended. Every result of \<open>performSearch\<close> is a document of the loaded corpus. On the
  indexed path the results are the first ten documents found for the index's references,
  in the order of the references: each result carries one of the references, and a
  reference that matches no document contributes nothing. The order is the index's, not
  the corpus's, so the results need not be a subsequence of the corpus.
\<close>

theorem performSearch_results_in_corpus:
  "set (searchResults (performSearch query s)) \<subseteq> set (documents s)
   \<and> (trim query \<noteq> [] \<and> lunrIndex s = Some idx \<and> lunrDefined s \<and>
        idx (query @ ''*'') = Inr refs \<longrightarrow>
          searchResults (performSearch query s) =
            take 10 (List.map_filter (findDoc (documents s)) refs)
          \<and> (\<forall>d \<in> set (searchResults (performSearch query s)). doc_id d \<in> set refs))
   \<and> (r \<notin> doc_id ` set docs \<longrightarrow>
        convertResults docs (rs1 @ r # rs2) = convertResults docs (rs1 @ rs2))"
proof (intro conjI impI)
  show "set (searchResults (performSearch query s)) \<subseteq> set (documents s)"
    by (rule performSearch_subset)
next
  assume a: "trim query \<noteq> [] \<and> lunrIndex s = Some idx \<and> lunrDefined s \<and>
        idx (query @ ''*'') = Inr refs"
  then have eq: "searchResults (performSearch query s) = take 10 (convertResults (documents s) refs)"
    by (simp add: performSearch_def slice0_def)
  then show "searchResults (performSearch query s) =
            take 10 (List.map_filter (findDoc (documents s)) refs)"
    by (simp add: convertResults_map_filter)
  show "\<forall>d \<in> set (searchResults (performSearch query s)). doc_id d \<in> set refs"
    unfolding eq by (auto dest: in_set_takeD convertResults_sound)
next
  assume "r \<notin> doc_id ` set docs"
  then have "findDoc docs r = None" by (simp add: findDoc_None)
  then show "convertResults docs (rs1 @ r # rs2) = convertResults docs (rs1 @ rs2)"
    by (simp add: convertResults_append convertResults_Cons)
qed

lemma indexed_hits: "searchResults (performSearch ''cache'' (indexed [''b'', ''zz'', ''a''])) = [docB, docA]"
  by code_simp

theorem performSearch_results_in_corpus_witness:
  "searchResults (performSearch ''cache'' (indexed [''b'', ''zz'', ''a''])) = [docB, docA]
   \<and> set [docB, docA] \<subseteq> set (documents (indexed [''b'', ''zz'', ''a'']))
   \<and> convertResults [docA, docB] ([''b''] @ ''zz'' # [''a'']) = convertResults [docA, docB] ([''b''] @ [''a''])"
proof -
  have a: "trim ''cache'' \<noteq> [] \<and> lunrIndex (indexed [''b'', ''zz'', ''a'']) =
             Some (\<lambda>q. if q = ''cache*'' then Inr [''b'', ''zz'', ''a''] else Inr []) \<and>
           lunrDefined (indexed [''b'', ''zz'', ''a'']) \<and>
           (\<lambda>q. if q = ''cache*'' then Inr [''b'', ''zz'', ''a''] else Inr []) (''cache'' @ ''*'')
             = (Inr [''b'', ''zz'', ''a''] :: js_error + string list)"
    using trim_cache by (simp add: indexed_def initSearch_def)
  have b: "''zz'' \<notin> doc_id ` set [docA, docB]"
    by (simp add: docA_def docB_def)
  note t = performSearch_results_in_corpus
    [of "''cache''" "indexed [''b'', ''zz'', ''a'']"
        "\<lambda>q. if q = ''cache*'' then Inr [''b'', ''zz'', ''a''] else Inr []"
        "[''b'', ''zz'', ''a'']" "''zz''" "[docA, docB]" "[''b'']" "[''a'']"]
  from t b have c: "convertResults [docA, docB] ([''b''] @ ''zz'' # [''a'']) =
       convertResults [docA, docB] ([''b''] @ [''a''])" by blast
  from t have d: "set (searchResults (performSearch ''cache'' (indexed [''b'', ''zz'', ''a''])))
      \<subseteq> set (documents (indexed [''b'', ''zz'', ''a'']))" by blast
  show ?thesis using c d indexed_hits by simp
qed

theorem performSearch_relevance_order_counterexample:
  "documents (indexed [''b'', ''a'']) = [docA, docB]
   \<and> searchResults (performSearch ''cache'' (indexed [''b'', ''a''])) = [docB, docA]
   \<and> \<not> subseq (searchResults (performSearch ''cache'' (indexed [''b'', ''a''])))
               (documents (indexed [''b'', ''a'']))"
  by code_simp


subsection \<open>Faults of the overlay\<close>

lemma onInput_blank_selection:
  "trim text = [] \<Longrightarrow> selectedResultIndex (onInput text s) = selectedResultIndex s \<and> searchResults (onInput text s) = []"
  by (simp add: onInput_def performSearch_def)

text \<open>
  C1, at a failing input. With the scenario's corpus loaded: open, type "cache" (one
  result), press ArrowDown (the selection becomes 0), then clear the query. The blank
  branch of \<open>performSearch\<close> empties the results and returns before the line that resets
  the selection, so the selection stays 0 over an empty result list: it is outside
  \<open>[-1, len(results)-1]\<close>, and the query change has not reset it to \<open>-1\<close>.
\<close>

theorem onQueryChange_blank_keeps_selection:
  "searchResults (overlay_run [Open, QueryChange ''cache'', ArrowDown] scenario) \<noteq> []
   \<and> selectedResultIndex (overlay_run [Open, QueryChange ''cache'', ArrowDown] scenario) = 0
   \<and> searchResults (overlay_run [Open, QueryChange ''cache'', ArrowDown, QueryChange []] scenario) = []
   \<and> selectedResultIndex
        (overlay_run [Open, QueryChange ''cache'', ArrowDown, QueryChange []] scenario) = 0"
  by code_simp

lemma cpp_snippet:
  "getSnippet mkRegExp replaceMark ''I love C++'' ''c++'' =
     highlightTerms mkRegExp replaceMark [''c++''] ''I love C++''"
  by code_simp

lemma cpp_search:
  "searchResults (onInput ''c++'' cpp_state) = documents cpp_state
   \<and> documents cpp_state =
       [\<lparr>doc_id = ''c'', doc_title = ''Languages'', doc_content = ''I love C++'', doc_url = ''/c''\<rparr>]
   \<and> searchQuery (onInput ''c++'' cpp_state) = ''c++''
   \<and> selectedResultIndex (onInput ''c++'' cpp_state) = - 1"
  by code_simp

lemma highlightTerms_returns:
  "(\<forall>t \<in> set ts. \<exists>regex. mkRegExp (''('' @ t @ '')'') = Inr regex) \<Longrightarrow>
   \<exists>result. highlightTerms mkRegExp replaceMark ts snippet = Inr result"
  by (induction ts arbitrary: snippet) auto

text \<open>
  C3, at a failing input. For the content "I love C++" and the query "c++", \<open>getSnippet\<close>
  hands the pattern \<open>(c++)\<close> to the \<open>RegExp\<close> constructor, the term unescaped, and an
  exception of the constructor leaves \<open>getSnippet\<close>, and with it \<open>renderResults\<close> after the
  query was typed. (ECMAScript rejects this pattern: nothing to repeat.)
\<close>

theorem getSnippet_unescaped_pattern:
  "getSnippet mkRegExp replaceMark ''I love C++'' ''c++'' =
     (case mkRegExp ''(c++)'' of
        Inl e \<Rightarrow> Inl e
      | Inr regex \<Rightarrow> Inr (replaceMark regex ''I love C++''))
   \<and> searchResults (onInput ''c++'' cpp_state) = documents cpp_state
   \<and> renderResults mkRegExp replaceMark (onInput ''c++'' cpp_state) =
     (case mkRegExp ''(c++)'' of
        Inl e \<Rightarrow> Inl e
      | Inr regex \<Rightarrow>
          Inr (ResultsList [\<lparr>item_href = ''/c'', item_title = ''Languages'',
                 item_snippet = replaceMark regex ''I love C++'', item_selected = False\<rparr>]))"
proof -
  have s: "getSnippet mkRegExp replaceMark ''I love C++'' ''c++'' =
     (case mkRegExp ''(c++)'' of
        Inl e \<Rightarrow> Inl e
      | Inr regex \<Rightarrow> Inr (replaceMark regex ''I love C++''))"
    by (simp add: cpp_snippet split: sum.split)
  have r: "renderResults mkRegExp replaceMark (onInput ''c++'' cpp_state) =
     (case mkRegExp ''(c++)'' of
        Inl e \<Rightarrow> Inl e
      | Inr regex \<Rightarrow>
          Inr (ResultsList [\<lparr>item_href = ''/c'', item_title = ''Languages'',
                 item_snippet = replaceMark regex ''I love C++'', item_selected = False\<rparr>]))"
    by (simp add: renderResults_def cpp_search s split: sum.split)
  from s r cpp_search show ?thesis by simp
qed

text \<open>
  C8, at a failing input. The overlay is open and \<open>h\<close> is pressed with the focus outside
  any text field (on the body, after a click beside the input): the listener of
  \<open>initSearch\<close> does not go home, the listener of \<open>static/script.js\<close>, which knows nothing
  of the overlay, does.
\<close>

theorem home_shortcut_with_overlay_open:
  "searchActive (openSearch initSearch)
   \<and> \<not> homeGuard (plain_key ''h'') (openSearch initSearch)
   \<and> script_keydown (plain_key ''h'') 0 [] = Some (Navigate ''/'')
   \<and> goes_home (plain_key ''h'') (openSearch initSearch) 0 []"
  by (simp add: openSearch_def initSearch_def homeGuard_def script_keydown_def plain_key_def goes_home_def)


subsection \<open>Navigation is guarded\<close>

lemma onEnter_eq:
  "onEnter s =
     Inr (if 0 \<le> selectedResultIndex s \<and> selectedResultIndex s < int (length (searchResults s))
          then s\<lparr>location := Some (doc_url (searchResults s ! nat (selectedResultIndex s)))\<rparr>
          else s)"
  by (simp add: onEnter_def js_get_def)

lemma renderResults_no_results:
  "searchResults s = [] \<Longrightarrow> \<not> isl (renderResults mkRegExp replaceMark s)"
  by (simp add: renderResults_def)

lemma slashShortcut_eq:
  "slashShortcut mkRegExp replaceMark e s =
     Inr (if key e = ''/'' \<and> \<not> searchActive s \<and> targetTag e \<noteq> ''INPUT'' \<and>
             targetTag e \<noteq> ''TEXTAREA''
          then openSearch s else s)"
proof -
  have "searchResults (openSearch s) = []" by (simp add: openSearch_def)
  from renderResults_no_results [OF this, of mkRegExp replaceMark]
  have "thenRender mkRegExp replaceMark (openSearch s) = Inr (openSearch s)"
    by (cases "renderResults mkRegExp replaceMark (openSearch s)")
       (simp_all add: thenRender_def)
  then show ?thesis by (simp add: slashShortcut_def)
qed

lemma search_keydown_Enter:
  "search_keydown mkRegExp replaceMark (e\<lparr>key := ''Enter''\<rparr>) s =
     (if searchActive s then onEnter s else Inr s)"
  by (simp add: search_keydown_def homeShortcut_def homeGuard_def slashShortcut_eq Let_def)

lemma search_keydown_no_fault:
  "key e \<noteq> ''ArrowDown'' \<and> key e \<noteq> ''ArrowUp'' \<Longrightarrow>
   \<not> isl (search_keydown mkRegExp replaceMark e s)"
  by (simp add: search_keydown_def Let_def slashShortcut_eq onEnter_eq)

lemma navigateToLink_eq:
  "navigateToLink links n =
     Inr (if 0 \<le> currentIndex n \<and> currentIndex n < int (length links)
          then n\<lparr>nav_location := Some (links ! nat (currentIndex n))\<rparr> else n)"
  by (simp add: navigateToLink_def js_get_def)

lemma nav_keydown_Enter:
  "nav_keydown links (plain_key ''Enter'') n = navigateToLink links n"
  by (simp add: nav_keydown_def plain_key_def navigateToLink_eq)

lemma nav_keydown_no_fault: "\<not> isl (nav_keydown links e n)"
  by (simp add: nav_keydown_def Let_def navigateToLink_eq)

text \<open>
  C9. The \<open>Enter\<close> branch of the overlay assigns the location exactly when the selection
  is an index of the current results, and to the selected document's URL; otherwise it
  changes nothing, and the listener does not end in an exception on \<open>Enter\<close>, whatever the
  state: the read of \<open>url\<close> is never reached on \<open>undefined\<close>. The same holds of every key
  but the two arrows, whose branches render. \<open>navigateToLink\<close> of the list navigator
  assigns the location exactly when \<open>currentIndex\<close> is an index of the links, and the
  listener of the list navigator never ends in an exception.
\<close>

theorem navigation_guarded:
  "onEnter s =
     Inr (if 0 \<le> selectedResultIndex s \<and> selectedResultIndex s < int (length (searchResults s))
          then s\<lparr>location := Some (doc_url (searchResults s ! nat (selectedResultIndex s)))\<rparr>
          else s)
   \<and> search_keydown mkRegExp replaceMark (e\<lparr>key := ''Enter''\<rparr>) s =
       (if searchActive s then onEnter s else Inr s)
   \<and> \<not> isl (search_keydown mkRegExp replaceMark (e\<lparr>key := ''Enter''\<rparr>) s)
   \<and> (\<forall>e'. key e' \<noteq> ''ArrowDown'' \<and> key e' \<noteq> ''ArrowUp'' \<longrightarrow>
          \<not> isl (search_keydown mkRegExp replaceMark e' s))
   \<and> navigateToLink links n =
     Inr (if 0 \<le> currentIndex n \<and> currentIndex n < int (length links)
          then n\<lparr>nav_location := Some (links ! nat (currentIndex n))\<rparr> else n)
   \<and> nav_keydown links (plain_key ''Enter'') n = navigateToLink links n
   \<and> (\<forall>e'. \<not> isl (nav_keydown links e' n))"
proof -
  have enter: "\<not> isl (search_keydown mkRegExp replaceMark (e\<lparr>key := ''Enter''\<rparr>) s)"
    by (rule search_keydown_no_fault) simp
  show ?thesis
    using onEnter_eq [of s] search_keydown_Enter [of mkRegExp replaceMark e s] enter
      search_keydown_no_fault [of _ mkRegExp replaceMark s]
      navigateToLink_eq [of links n] nav_keydown_Enter [of links n]
      nav_keydown_no_fault [of links _ n]
    by simp
qed


subsection \<open>The arrow keys render\<close>

text \<open>
  With the document of \<open>cpp_state\<close> found for the query "c++", ArrowDown selects it and
  renders: the exception of the \<open>RegExp\<close> constructor leaves the listener here too.
\<close>

lemma cpp_typed_facts:
  "searchActive (onInput ''c++'' (openSearch cpp_state))
   \<and> searchResults (onInput ''c++'' (openSearch cpp_state)) =
       [\<lparr>doc_id = ''c'', doc_title = ''Languages'', doc_content = ''I love C++'', doc_url = ''/c''\<rparr>]
   \<and> searchQuery (onInput ''c++'' (openSearch cpp_state)) = ''c++''
   \<and> selectedResultIndex (onInput ''c++'' (openSearch cpp_state)) = - 1"
  by code_simp

lemma arrowDown_renders_unescaped_pattern:
  "search_keydown mkRegExp replaceMark (plain_key ''ArrowDown'')
     (onInput ''c++'' (openSearch cpp_state)) =
   (case mkRegExp ''(c++)'' of
      Inl e \<Rightarrow> Inl e
    | Inr regex \<Rightarrow> Inr (arrowDown (onInput ''c++'' (openSearch cpp_state))))"
  by (simp add: search_keydown_def homeShortcut_def homeGuard_def slashShortcut_eq
        plain_key_def Let_def thenRender_def renderResults_def arrowDown_def
        cpp_typed_facts cpp_snippet split: sum.split)


subsection \<open>The list navigator's index\<close>

lemma currentIndex_highlightLink:
  "currentIndex (highlightLink links i s) =
     (if 0 \<le> i \<and> i < int (length links) then i else currentIndex s)"
  by (simp add: highlightLink_def setKeyboardNavMode_def clearHighlight_def Let_def)

lemma in_range_highlightLink: "in_range links s \<Longrightarrow> in_range links (highlightLink links i s)"
  by (simp add: in_range_def currentIndex_highlightLink)

lemma in_range_buffer [simp]:
  "in_range links (s\<lparr>numberBuffer := b, timerPending := p\<rparr>) = in_range links s"
  by (simp add: in_range_def)

lemma in_range_settle: "in_range links s \<Longrightarrow> in_range links (settle links s)"
  by (simp add: settle_def Let_def in_range_highlightLink split: option.split)

lemma in_range_onMouseMove: "in_range links s \<Longrightarrow> in_range links (onMouseMove s)"
  by (simp add: onMouseMove_def in_range_def clearHighlight_def setKeyboardNavMode_def)

lemma in_range_nav_keydown:
  assumes "in_range links s"
  shows "\<exists>s'. nav_keydown links e s = Inr s' \<and> in_range links s'"
proof -
  have h: "in_range links (highlightLink links i s)" for i
    using assms by (rule in_range_highlightLink)
  have n: "\<exists>s'. navigateToLink links s = Inr s' \<and> in_range links s'"
    using assms by (simp add: navigateToLink_def js_get_def in_range_def)
  have k: "in_range links (handleNumberKey num s)" for num
    using assms by (simp add: handleNumberKey_def)
  show ?thesis
    unfolding nav_keydown_def Let_def using assms h n k by simp
qed

lemma in_range_nav_step:
  "in_range links s \<Longrightarrow> \<exists>s'. nav_step links ev s = Inr s' \<and> in_range links s'"
  by (cases ev) (simp_all add: in_range_nav_keydown in_range_settle in_range_onMouseMove)

lemma in_range_nav_run:
  "in_range links s \<Longrightarrow> \<exists>s'. nav_run links evs s = Inr s' \<and> in_range links s'"
proof (induction evs arbitrary: s)
  case Nil
  then show ?case by simp
next
  case (Cons ev evs)
  from in_range_nav_step [OF Cons.prems, of ev]
  obtain s1 where s1: "nav_step links ev s = Inr s1" "in_range links s1" by blast
  from Cons.IH [OF s1(2)] s1(1) show ?case by simp
qed

lemma in_range_nav_init: "in_range links nav_init"
  by (simp add: in_range_def nav_init_def)

lemma arrowUp_step:
  "nav_keydown links (plain_key ''ArrowUp'') s =
     Inr ((if currentIndex s - 1 \<ge> 0 then highlightLink links (currentIndex s - 1) s else s)
            \<lparr>numberBuffer := [], timerPending := False\<rparr>)"
  by (simp add: nav_keydown_def plain_key_def Let_def)

lemma arrowDown_step:
  "nav_keydown links (plain_key ''ArrowDown'') s =
     Inr ((if currentIndex s + 1 < int (length links)
           then highlightLink links (currentIndex s + 1) s else s)
            \<lparr>numberBuffer := [], timerPending := False\<rparr>)"
  by (simp add: nav_keydown_def plain_key_def Let_def)

text \<open>
  C7. After every sequence of events of the list navigator (key presses of any kind,
  arrows among them, the timer, mouse moves), from the initial state, no handler has
  thrown and \<open>currentIndex\<close> is in \<open>[-1, linkCount-1]\<close>. In the state reached, ArrowUp
  moves the index down by one, except at index 0 (and at \<open>-1\<close>) where index, highlight and
  scroll position stay as they are; ArrowDown moves it up by one, except at the last
  index where they stay as they are. There is no wraparound, and an index outside
  \<open>[0, linkCount-1]\<close> is never selected.
\<close>

theorem nav_arrows_clamped:
  "\<exists>s. nav_run links evs nav_init = Inr s
     \<and> - 1 \<le> currentIndex s \<and> currentIndex s \<le> int (length links) - 1
     \<and> (\<exists>u. nav_keydown links (plain_key ''ArrowUp'') s = Inr u
           \<and> currentIndex u = (if currentIndex s \<le> 0 then currentIndex s else currentIndex s - 1)
           \<and> (if currentIndex s \<le> 0
               then highlighted u = highlighted s \<and> scrolledTo u = scrolledTo s
               else highlighted u = {nat (currentIndex s - 1)}
                    \<and> scrolledTo u = Some (currentIndex s - 1)))
     \<and> (\<exists>d. nav_keydown links (plain_key ''ArrowDown'') s = Inr d
           \<and> currentIndex d =
               (if currentIndex s = int (length links) - 1 then currentIndex s
                else currentIndex s + 1)
           \<and> (if currentIndex s = int (length links) - 1
               then highlighted d = highlighted s \<and> scrolledTo d = scrolledTo s
               else highlighted d = {nat (currentIndex s + 1)}
                    \<and> scrolledTo d = Some (currentIndex s + 1)))"
proof -
  from in_range_nav_run [OF in_range_nav_init, of links evs]
  obtain s where s: "nav_run links evs nav_init = Inr s" "in_range links s" by blast
  have r: "- 1 \<le> currentIndex s" "currentIndex s \<le> int (length links) - 1"
    using s(2) by (simp_all add: in_range_def)
  have up: "\<exists>u. nav_keydown links (plain_key ''ArrowUp'') s = Inr u
           \<and> currentIndex u = (if currentIndex s \<le> 0 then currentIndex s else currentIndex s - 1)
           \<and> (if currentIndex s \<le> 0
               then highlighted u = highlighted s \<and> scrolledTo u = scrolledTo s
               else highlighted u = {nat (currentIndex s - 1)}
                    \<and> scrolledTo u = Some (currentIndex s - 1))"
    using r by (simp add: arrowUp_step highlightLink_def setKeyboardNavMode_def
        clearHighlight_def Let_def)
  have down: "\<exists>d. nav_keydown links (plain_key ''ArrowDown'') s = Inr d
           \<and> currentIndex d =
               (if currentIndex s = int (length links) - 1 then currentIndex s
                else currentIndex s + 1)
           \<and> (if currentIndex s = int (length links) - 1
               then highlighted d = highlighted s \<and> scrolledTo d = scrolledTo s
               else highlighted d = {nat (currentIndex s + 1)}
                    \<and> scrolledTo d = Some (currentIndex s + 1))"
    using r by (simp add: arrowDown_step highlightLink_def setKeyboardNavMode_def
        clearHighlight_def Let_def)
  from s(1) r up down show ?thesis by blast
qed


subsection \<open>Witnesses for the guards and the index\<close>

lemma selected_state_facts:
  "selectedResultIndex selected_state = 0 \<and>
   searchResults selected_state =
     [\<lparr>doc_id = ''b'', doc_title = ''Cache Design'', doc_content = ''A cache stores results'',
       doc_url = ''/b''\<rparr>] \<and>
   searchActive selected_state"
  by code_simp

lemma stale_state_facts:
  "selectedResultIndex stale_state = 0 \<and> searchResults stale_state = [] \<and>
   searchActive stale_state"
  by code_simp

theorem navigation_guarded_witness:
  "onEnter selected_state = Inr (selected_state\<lparr>location := Some ''/b''\<rparr>)
   \<and> search_keydown (\<lambda>p. Inr p) (\<lambda>r snippet. snippet) (plain_key ''Enter'') selected_state =
       Inr (selected_state\<lparr>location := Some ''/b''\<rparr>)
   \<and> onEnter stale_state = Inr stale_state
   \<and> search_keydown (\<lambda>p. Inr p) (\<lambda>r snippet. snippet) (plain_key ''Enter'') stale_state =
       Inr stale_state
   \<and> navigateToLink [''/x'', ''/y''] (nav_init\<lparr>currentIndex := 1\<rparr>) =
       Inr (nav_init\<lparr>currentIndex := 1, nav_location := Some ''/y''\<rparr>)
   \<and> navigateToLink [''/x'', ''/y''] (nav_init\<lparr>currentIndex := 2\<rparr>) =
       Inr (nav_init\<lparr>currentIndex := 2\<rparr>)"
proof -
  have k: "(plain_key ''x'')\<lparr>key := ''Enter''\<rparr> = plain_key ''Enter''"
    by (simp add: plain_key_def)
  note a = navigation_guarded
    [where s = selected_state and mkRegExp = "\<lambda>p. Inr p :: js_error + string"
       and replaceMark = "\<lambda>r snippet. snippet" and e = "plain_key ''x''"
       and links = "[''/x'', ''/y'']" and n = "nav_init\<lparr>currentIndex := 1\<rparr>"]
  note b = navigation_guarded
    [where s = stale_state and mkRegExp = "\<lambda>p. Inr p :: js_error + string"
       and replaceMark = "\<lambda>r snippet. snippet" and e = "plain_key ''x''"
       and links = "[''/x'', ''/y'']" and n = "nav_init\<lparr>currentIndex := 2\<rparr>"]
  show ?thesis
    using a b selected_state_facts stale_state_facts by (simp add: k)
qed

lemma three_downs:
  "\<exists>s. nav_run [''/x'', ''/y''] [pressDown, pressDown, pressDown] nav_init = Inr s \<and> currentIndex s = 1
        \<and> highlighted s = {1}"
  by (simp add: pressDown_def nav_keydown_def plain_key_def nav_init_def highlightLink_def
     setKeyboardNavMode_def clearHighlight_def Let_def)

theorem nav_arrows_clamped_witness:
  "\<exists>s. nav_run [''/x'', ''/y''] [pressDown, pressDown, pressDown] nav_init = Inr s \<and> currentIndex s = 1
     \<and> (\<exists>d. nav_keydown [''/x'', ''/y''] (plain_key ''ArrowDown'') s = Inr d \<and> currentIndex d = 1)
     \<and> (\<exists>u. nav_keydown [''/x'', ''/y''] (plain_key ''ArrowUp'') s = Inr u \<and> currentIndex u = 0)"
proof -
  from nav_arrows_clamped [of "[''/x'', ''/y'']" "[pressDown, pressDown, pressDown]"]
  obtain s where s: "nav_run [''/x'', ''/y''] [pressDown, pressDown, pressDown] nav_init = Inr s"
    and u: "\<exists>u. nav_keydown [''/x'', ''/y''] (plain_key ''ArrowUp'') s = Inr u
           \<and> currentIndex u = (if currentIndex s \<le> 0 then currentIndex s else currentIndex s - 1)"
    and d: "\<exists>d. nav_keydown [''/x'', ''/y''] (plain_key ''ArrowDown'') s = Inr d
           \<and> currentIndex d =
               (if currentIndex s = int (length [''/x'', ''/y'']) - 1 then currentIndex s
                else currentIndex s + 1)"
    by blast
  from three_downs s have c: "currentIndex s = 1" by auto
  from s c u d show ?thesis by auto
qed


subsection \<open>The number buffer\<close>

lemma digit_key_le: "is_digit c \<Longrightarrow> js_str_le ''0'' [c] \<and> js_str_le [c] ''9''"
proof -
  assume d: "is_digit c"
  have z: "(of_char (CHR ''0'') :: nat) = 48" by simp
  have n: "(of_char (CHR ''9'') :: nat) = 57" by simp
  have a: "48 < (of_char c :: nat) \<or> CHR ''0'' = c"
  proof (cases "(of_char c :: nat) = 48")
    case True
    then have "(of_char c :: nat) = of_char (CHR ''0'')" by simp
    then show ?thesis by (simp only: of_char_eq_iff) simp
  next
    case False
    then show ?thesis using d by (simp add: is_digit_def)
  qed
  have b: "(of_char c :: nat) < 57 \<or> c = CHR ''9''"
  proof (cases "(of_char c :: nat) = 57")
    case True
    then have "(of_char c :: nat) = of_char (CHR ''9'')" by simp
    then show ?thesis by (simp only: of_char_eq_iff) simp
  next
    case False
    then show ?thesis using d by (simp add: is_digit_def)
  qed
  show ?thesis using a b by (simp only: js_str_le.simps z n) simp
qed

lemma digit_not_space: "is_digit c \<Longrightarrow> \<not> is_space c"
  by (auto simp: is_digit_def is_space_def)

lemma digit_not_sign: "is_digit c \<Longrightarrow> c \<noteq> CHR ''-'' \<and> c \<noteq> CHR ''+''"
  by (auto simp: is_digit_def)

lemma nav_keydown_digit:
  assumes "is_digit c"
  shows "nav_keydown links (plain_key [c]) s = Inr (handleNumberKey [c] s)"
  using digit_key_le [OF assms]
  by (simp add: nav_keydown_def plain_key_def)

lemma nav_run_append:
  "nav_run links (evs @ evs') s =
     (case nav_run links evs s of Inl err \<Rightarrow> Inl err | Inr s' \<Rightarrow> nav_run links evs' s')"
  by (induction evs arbitrary: s) (auto split: sum.split)

lemma nav_run_digits:
  assumes "\<forall>c \<in> set ds. is_digit c"
  shows "nav_run links (digitKeys ds) s =
           Inr (s\<lparr>numberBuffer := numberBuffer s @ ds,
                  timerPending := (timerPending s \<or> ds \<noteq> [])\<rparr>)"
  using assms
proof (induction ds arbitrary: s)
  case Nil
  then show ?case by (simp add: digitKeys_def)
next
  case (Cons c ds)
  then have c: "is_digit c" and ds: "\<forall>c \<in> set ds. is_digit c" by simp_all
  have "nav_run links (digitKeys (c # ds)) s = nav_run links (digitKeys ds) (handleNumberKey [c] s)"
    by (simp add: digitKeys_def nav_keydown_digit [OF c])
  also have "\<dots> = Inr ((handleNumberKey [c] s)\<lparr>numberBuffer := numberBuffer (handleNumberKey [c] s) @ ds,
                  timerPending := (timerPending (handleNumberKey [c] s) \<or> ds \<noteq> [])\<rparr>)"
    by (rule Cons.IH [OF ds])
  finally show ?case by (simp add: handleNumberKey_def)
qed

lemma parseInt10_digits:
  assumes "ds \<noteq> []" and "\<forall>c \<in> set ds. is_digit c"
  shows "parseInt10 ds = Some (int (decimal ds))"
proof -
  obtain c cs where ds: "ds = c # cs" using assms(1) by (cases ds) auto
  have c: "is_digit c" using assms(2) ds by simp
  have 1: "dropWhile is_space ds = ds" using ds digit_not_space [OF c] by simp
  have 2: "takeWhile is_digit ds = ds" using assms(2) by simp
  have 3: "hd ds \<noteq> CHR ''-'' \<and> hd ds \<noteq> CHR ''+''" using ds digit_not_sign [OF c] by simp
  show ?thesis
    using assms(1) 3 by (simp add: parseInt10_def 1 2 Let_def)
qed

text \<open>
  C6. Let the buffer be empty, and let one or more digit keys be pressed with no timer
  firing in between; then the timer fires. No handler throws. The digits are read
  together as one decimal number \<open>n\<close> (\<open>decimal\<close>; "1" then "2" is 12): when
  \<open>1 \<le> n \<le> linkCount\<close>, the link with the 0-based index \<open>n - 1\<close> becomes the current and
  the only highlighted one and is scrolled to; otherwise index, highlight and scroll
  position stay as they were. In both cases the buffer is empty afterwards, no timer is
  pending, and the page has not navigated.
\<close>

theorem digits_settle_to_one_index:
  assumes "ds \<noteq> []" and "\<forall>c \<in> set ds. is_digit c" and "numberBuffer s = []"
  shows "\<exists>s'. nav_run links (digitKeys ds @ [TimerFires]) s = Inr s'
     \<and> numberBuffer s' = [] \<and> \<not> timerPending s'
     \<and> nav_location s' = nav_location s
     \<and> (if 1 \<le> decimal ds \<and> decimal ds \<le> length links
         then currentIndex s' = int (decimal ds) - 1
              \<and> highlighted s' = {decimal ds - 1}
              \<and> scrolledTo s' = Some (int (decimal ds) - 1)
         else currentIndex s' = currentIndex s
              \<and> highlighted s' = highlighted s
              \<and> scrolledTo s' = scrolledTo s)"
proof -
  let ?b = "s\<lparr>numberBuffer := numberBuffer s @ ds, timerPending := (timerPending s \<or> ds \<noteq> [])\<rparr>"
  have run: "nav_run links (digitKeys ds @ [TimerFires]) s = Inr (settle links ?b)"
    using assms(1) by (simp add: nav_run_append nav_run_digits [OF assms(2)])
  have p: "parseInt10 ds = Some (int (decimal ds))"
    by (rule parseInt10_digits [OF assms(1,2)])
  have rng: "(int (decimal ds) - 1 \<ge> 0 \<and> int (decimal ds) - 1 < int (length links))
             = (1 \<le> decimal ds \<and> decimal ds \<le> length links)"
    by auto
  have n: "nat (int (decimal ds) - 1) = decimal ds - 1" by simp
  show ?thesis
    unfolding run
    by (simp add: settle_def assms(3) p rng n Let_def highlightLink_def
          setKeyboardNavMode_def clearHighlight_def del: of_nat_diff)
qed

lemma decimal_12: "decimal ''12'' = 12 \<and> (\<forall>c \<in> set ''12''. is_digit c)"
  by (simp add: decimal_def digit_val_def is_digit_def)

theorem digits_settle_to_one_index_witness:
  "\<exists>s'. nav_run (replicate 12 ''/p'') (digitKeys ''12'' @ [TimerFires]) nav_init = Inr s'
     \<and> currentIndex s' = 11 \<and> highlighted s' = {11} \<and> numberBuffer s' = []
     \<and> nav_location s' = None"
proof -
  have a: "''12'' \<noteq> []" by simp
  have b: "\<forall>c \<in> set ''12''. is_digit c" using decimal_12 by blast
  have c: "numberBuffer nav_init = []" by (simp add: nav_init_def)
  from digits_settle_to_one_index [OF a b c, of "replicate 12 ''/p''"] decimal_12
  show ?thesis by (auto simp: nav_init_def)
qed


subsection \<open>The snippet window\<close>

lemma indexOf_from_cases:
  "indexOf_from s t i = - 1 \<or>
   (\<exists>k. indexOf_from s t i = int (i + k) \<and> prefix t (drop k s) \<and>
        (\<forall>j<k. \<not> prefix t (drop j s)))"
proof (induction s arbitrary: i)
  case Nil
  show ?case by (cases "t = []") auto
next
  case (Cons c cs)
  show ?case
  proof (cases "prefix t (c # cs)")
    case True
    then have "indexOf_from (c # cs) t i = int (i + 0) \<and> prefix t (drop 0 (c # cs)) \<and>
        (\<forall>j<0. \<not> prefix t (drop j (c # cs)))" by simp
    then show ?thesis by blast
  next
    case False
    from Cons.IH [of "Suc i"] show ?thesis
    proof
      assume "indexOf_from cs t (Suc i) = - 1"
      then show ?thesis using False by simp
    next
      assume "\<exists>k. indexOf_from cs t (Suc i) = int (Suc i + k) \<and> prefix t (drop k cs) \<and>
        (\<forall>j<k. \<not> prefix t (drop j cs))"
      then obtain k where k: "indexOf_from cs t (Suc i) = int (Suc i + k)"
        "prefix t (drop k cs)" "\<forall>j<k. \<not> prefix t (drop j cs)" by blast
      have "\<forall>j<Suc k. \<not> prefix t (drop j (c # cs))"
      proof (intro allI impI)
        fix j assume "j < Suc k"
        then show "\<not> prefix t (drop j (c # cs))"
          using False k(3) by (cases j) auto
      qed
      then have "indexOf_from (c # cs) t i = int (i + Suc k) \<and>
          prefix t (drop (Suc k) (c # cs)) \<and> (\<forall>j<Suc k. \<not> prefix t (drop j (c # cs)))"
        using False k by simp
      then show ?thesis by blast
    qed
  qed
qed

lemma indexOf_first_occurrence:
  assumes "indexOf s t \<noteq> - 1"
  shows "0 \<le> indexOf s t \<and> prefix t (drop (nat (indexOf s t)) s) \<and>
         (\<forall>j < nat (indexOf s t). \<not> prefix t (drop j s))"
proof -
  from indexOf_from_cases [of s t 0] assms
  obtain k where "indexOf s t = int k" "prefix t (drop k s)" "\<forall>j<k. \<not> prefix t (drop j s)"
    by (auto simp: indexOf_def)
  then show ?thesis by simp
qed

lemma findMatchIndex_find:
  "List.find (\<lambda>t. indexOf lc t \<noteq> - 1) ts = Some t \<Longrightarrow> findMatchIndex lc ts = indexOf lc t"
  by (induction ts) (auto simp: Let_def split: if_splits)

lemma spec_earliestOffset_le:
  assumes "t \<in> set ts" and "indexOf lc t \<noteq> - 1"
  shows "spec_earliestOffset lc ts \<le> indexOf lc t"
proof -
  define offsets where "offsets = filter (\<lambda>p. p \<noteq> - 1) (map (indexOf lc) ts)"
  have m: "indexOf lc t \<in> set offsets" using assms by (auto simp: offsets_def)
  then have ne: "offsets \<noteq> []" by auto
  have le: "Min (set offsets) \<le> indexOf lc t" using m by (intro Min_le) auto
  have "spec_earliestOffset lc ts = (if offsets = [] then - 1 else Min (set offsets))"
    unfolding spec_earliestOffset_def Let_def offsets_def by (rule refl)
  with ne le show ?thesis by simp
qed

lemma long_content_snippet:
  "getSnippet mkRegExp replaceMark long_content ''bar foo'' =
     highlightTerms mkRegExp replaceMark [''bar'', ''foo''] (''...'' @ drop 28 long_content)"
  by code_simp

text \<open>
  C2, at a failing input. The content has "foo" at offset 0 and "bar" at offset 103, and
  the query is "bar foo". The earliest offset at which any term occurs is 0, which is what
  the comment over the loop names ("the first occurrence of any query term"). The loop
  stops at the first term of the query that occurs at all and keeps that term's offset,
  103, so the window is \<open>[28, 106)\<close>: the snippet starts with an ellipsis at offset 28 and
  does not hold the earliest match.
\<close>

theorem getSnippet_window_not_at_earliest_offset:
  "queryTerms (toLowerCase ''bar foo'') = [''bar'', ''foo'']
   \<and> indexOf (toLowerCase long_content) ''foo'' = 0
   \<and> indexOf (toLowerCase long_content) ''bar'' = 103
   \<and> spec_earliestOffset (toLowerCase long_content) (queryTerms (toLowerCase ''bar foo'')) = 0
   \<and> findMatchIndex (toLowerCase long_content) (queryTerms (toLowerCase ''bar foo'')) = 103
   \<and> (\<forall>(mkRegExp :: string \<Rightarrow> js_error + string) replaceMark.
        getSnippet mkRegExp replaceMark long_content ''bar foo'' =
          highlightTerms mkRegExp replaceMark [''bar'', ''foo'']
            (''...'' @ drop 28 long_content))"
proof -
  have "queryTerms (toLowerCase ''bar foo'') = [''bar'', ''foo'']
   \<and> indexOf (toLowerCase long_content) ''foo'' = 0
   \<and> indexOf (toLowerCase long_content) ''bar'' = 103
   \<and> spec_earliestOffset (toLowerCase long_content) (queryTerms (toLowerCase ''bar foo'')) = 0
   \<and> findMatchIndex (toLowerCase long_content) (queryTerms (toLowerCase ''bar foo'')) = 103"
    by code_simp
  then show ?thesis using long_content_snippet by blast
qed

end
